theory Spec2Isabelle
  imports Main "HOL-Library.Word"
begin

unbundle bit_operations_syntax

section \<open>Python values used by \<open>fimbu.utils.crypto\<close>\<close>

text \<open>
  A Python \<open>bytes\<close> object is a list of 8-bit words. A Python \<open>str\<close> is a list of
  Unicode code points: \<open>len\<close>, slicing and the padding of a format specification
  count code points, not bytes. \<open>py_str\<close> reads an ASCII literal as such a list.
\<close>

type_synonym byte = "8 word"
type_synonym bytes = "byte list"
type_synonym pystr = "nat list"

definition py_str :: "string \<Rightarrow> pystr" where
  "py_str s = map of_char s"

definition py_bytes :: "string \<Rightarrow> bytes" where
  "py_bytes s = map of_char s"

text \<open>
  The exceptions that the modelled functions can raise: the built-in ones, which
  come out of the library calls, and \<open>InvalidAlgorithm\<close>, the module's own class
  (a subclass of \<open>ValueError\<close>), which only \<open>salted_hmac\<close> raises.
\<close>

datatype py_exception =
    TypeError
  | ValueError
  | IndexError
  | UnicodeEncodeError
  | AttributeError
  | OverflowError

datatype error =
    InvalidAlgorithm
  | Builtin py_exception

section \<open>The world outside the arguments\<close>

text \<open>
  A hash constructor of \<open>hashlib\<close> (\<open>hashlib.sha1\<close>, \<open>hashlib.sha256\<close>, ...) is
  described by its name, its digest and block sizes and the function from a message
  to its digest. The compression functions themselves are not modelled: \<open>hfun\<close> is
  whatever the library computes.
\<close>

record hash_info =
  hname :: string
  digest_size :: nat
  block_size :: nat
  hfun :: "bytes \<Rightarrow> bytes"

text \<open>
  What \<open>getattr(hashlib, name)\<close> can find: a fixed-length hash constructor, an
  extendable-output constructor (\<open>shake_128\<close>, \<open>shake_256\<close>, whose \<open>digest\<close> needs a
  length argument), or any other attribute of the module (the functions \<open>new\<close>,
  \<open>pbkdf2_hmac\<close>, \<open>scrypt\<close>, \<open>file_digest\<close>, the sets \<open>algorithms_guaranteed\<close> and
  \<open>algorithms_available\<close>, the module's dunder attributes). None of the latter can
  be used as a hash constructor: \<open>Other e\<close> is one on which that use raises \<open>e\<close>
  (\<open>new\<close> wants a name and \<open>pbkdf2_hmac\<close> more arguments, a set is not callable:
  \<open>TypeError\<close> for all of these).
\<close>

datatype hashlib_attr =
    HashCtor hash_info
  | XofCtor string
  | Other py_exception

text \<open>
  Everything a function of the module can see besides its arguments:
  \<^item> \<open>SECRET_KEY\<close>: \<open>settings.SECRET_KEY\<close> of \<open>fimbu.conf\<close>;
  \<^item> \<open>force_bytes\<close>: \<open>fimbu.utils.encoding.force_bytes\<close>, which is not among the
    sources; it is taken as given, a function from values to \<open>bytes\<close>;
  \<^item> \<open>hashlib\<close>: the namespace of the \<open>hashlib\<close> module;
  \<^item> \<open>source\<close> and \<open>drawn\<close>: the operating system's random source behind the
    \<open>secrets\<close> module, as the sequence of numbers it will deliver and the count of
    those already delivered.
\<close>

record 'v world =
  SECRET_KEY :: 'v
  force_bytes :: "'v \<Rightarrow> bytes"
  hashlib :: "string \<Rightarrow> hashlib_attr option"
  source :: "nat \<Rightarrow> nat"
  drawn :: nat

section \<open>Random strings\<close>

text \<open>
  \<open>secrets.choice(seq)\<close> raises \<open>IndexError\<close> on an empty sequence and otherwise
  returns \<open>seq[randbelow(len(seq))]\<close>; \<open>randbelow n\<close> takes the next number of the
  random source and delivers an index below \<open>n\<close>.
\<close>

definition randbelow :: "nat \<Rightarrow> 'v world \<Rightarrow> nat \<times> 'v world" where
  "randbelow n w = (source w (drawn w) mod n, w\<lparr>drawn := Suc (drawn w)\<rparr>)"

definition choice :: "'a list \<Rightarrow> 'v world \<Rightarrow> (error + 'a) \<times> 'v world" where
  "choice seq w =
     (if length seq = 0 then (Inl (Builtin IndexError), w)
      else (case randbelow (length seq) w of (i, w') \<Rightarrow> (Inr (seq ! i), w')))"

text \<open>
  \<^verbatim>\<open>"".join(secrets.choice(allowed_chars) for i in range(length))\<close>:
  one \<open>choice\<close> per element of \<open>range(length)\<close>, the first exception ends the
  generator. \<open>range(length)\<close> is empty when \<open>length\<close> is zero or negative.
\<close>

fun join_choices :: "nat \<Rightarrow> 'a list \<Rightarrow> 'v world \<Rightarrow> (error + 'a list) \<times> 'v world" where
  "join_choices 0 allowed_chars w = (Inr [], w)"
| "join_choices (Suc k) allowed_chars w =
     (case choice allowed_chars w of
        (Inl e, w') \<Rightarrow> (Inl e, w')
      | (Inr c, w') \<Rightarrow>
          (case join_choices k allowed_chars w' of
             (Inl e, w'') \<Rightarrow> (Inl e, w'')
           | (Inr s, w'') \<Rightarrow> (Inr (c # s), w'')))"

definition RANDOM_STRING_CHARS :: pystr where
  "RANDOM_STRING_CHARS =
     py_str ''abcdefghijklmnopqrstuvwxyzABCDEFGHIJKLMNOPQRSTUVWXYZ0123456789''"

definition get_random_string :: "int \<Rightarrow> 'a list \<Rightarrow> 'v world \<Rightarrow> (error + 'a list) \<times> 'v world" where
  "get_random_string len allowed_chars w = join_choices (nat len) allowed_chars w"

definition get_random_secret_key :: "int \<Rightarrow> 'v world \<Rightarrow> (error + pystr) \<times> 'v world" where
  "get_random_secret_key len w =
     (let chars = py_str ''abcdefghijklmnopqrstuvwxyz0123456789!@#$%^&*(-_=+)''
      in get_random_string len chars w)"

section \<open>Constant-time comparison\<close>

text \<open>
  \<open>secrets.compare_digest\<close> is \<open>hmac.compare_digest\<close>. On two \<open>bytes\<close> objects it
  runs over the whole second operand, collecting with \<open>OR\<close> the \<open>XOR\<close> of the
  bytes it pairs: against the first operand when the lengths agree, and against
  the second operand itself, with the result preset to 1, when they do not.
\<close>

fun tscmp_loop :: "byte \<Rightarrow> bytes \<Rightarrow> bytes \<Rightarrow> byte" where
  "tscmp_loop result (l # left) (r # right) = tscmp_loop (result OR (l XOR r)) left right"
| "tscmp_loop result left [] = result"
| "tscmp_loop result [] (r # right) = result"

definition compare_digest :: "bytes \<Rightarrow> bytes \<Rightarrow> bool" where
  "compare_digest a b =
     (let left = (if length a = length b then a else b);
          result = (if length a = length b then 0 else 1)
      in tscmp_loop result left b = 0)"

definition constant_time_compare :: "'v world \<Rightarrow> 'v \<Rightarrow> 'v \<Rightarrow> bool" where
  "constant_time_compare w val1 val2 =
     compare_digest (force_bytes w val1) (force_bytes w val2)"

section \<open>Hash constructors and HMAC\<close>

text \<open>
  \<open>hasher(data).digest()\<close> for \<open>hasher = getattr(hashlib, algorithm)\<close>: a hash
  constructor gives the digest of the data. An extendable-output constructor builds
  its object, but its \<open>digest()\<close> without a length raises \<open>TypeError\<close>; any other
  attribute raises its exception.
\<close>

definition hasher_digest :: "hashlib_attr \<Rightarrow> bytes \<Rightarrow> error + bytes" where
  "hasher_digest hasher data =
     (case hasher of
        HashCtor h \<Rightarrow> Inr (hfun h data)
      | XofCtor name \<Rightarrow> Inl (Builtin TypeError)
      | Other e \<Rightarrow> Inl (Builtin e))"

text \<open>
  The object that \<open>hmac.new(key, msg=msg, digestmod=hasher)\<close> returns, and the value
  of its \<open>digest()\<close>: HMAC as in RFC 2104, over the hash function of \<open>digestmod\<close>. A
  key longer than the block size is hashed first, then the key is filled with
  zero bytes up to the block size.
\<close>

record hmac_object =
  digestmod :: hash_info
  hmac_key :: bytes
  hmac_msg :: bytes

definition hmac_new :: "bytes \<Rightarrow> bytes \<Rightarrow> hashlib_attr \<Rightarrow> error + hmac_object" where
  "hmac_new key msg hasher =
     (case hasher of
        HashCtor h \<Rightarrow> Inr \<lparr> digestmod = h, hmac_key = key, hmac_msg = msg \<rparr>
      | XofCtor name \<Rightarrow> Inl (Builtin TypeError)
      | Other e \<Rightarrow> Inl (Builtin e))"

definition hmac_block_key :: "hash_info \<Rightarrow> bytes \<Rightarrow> bytes" where
  "hmac_block_key h key =
     (let k = (if block_size h < length key then hfun h key else key)
      in k @ replicate (block_size h - length k) 0)"

definition hmac_digest :: "hash_info \<Rightarrow> bytes \<Rightarrow> bytes \<Rightarrow> bytes" where
  "hmac_digest h key msg =
     (let k = hmac_block_key h key;
          inner = hfun h (map (\<lambda>b. b XOR 0x36) k @ msg)
      in hfun h (map (\<lambda>b. b XOR 0x5C) k @ inner))"

definition hmac_object_digest :: "hmac_object \<Rightarrow> bytes" where
  "hmac_object_digest obj = hmac_digest (digestmod obj) (hmac_key obj) (hmac_msg obj)"

text \<open>
  \<open>salted_hmac(key_salt, value, secret=None, *, algorithm="sha1")\<close>. An argument left
  out is \<open>None\<close>. \<open>getattr(hashlib, algorithm)\<close> raises \<open>AttributeError\<close> exactly when
  the module has no attribute of that name, and only that exception is turned into
  \<open>InvalidAlgorithm\<close>; whatever the two later calls raise is passed on.
\<close>

definition salted_hmac ::
  "'v world \<Rightarrow> 'v \<Rightarrow> 'v \<Rightarrow> 'v option \<Rightarrow> string \<Rightarrow> error + hmac_object" where
  "salted_hmac w key_salt val secret algorithm =
     (let secret = (case secret of None \<Rightarrow> SECRET_KEY w | Some s \<Rightarrow> s);
          key_salt = force_bytes w key_salt;
          secret = force_bytes w secret
      in case hashlib w algorithm of
           None \<Rightarrow> Inl InvalidAlgorithm
         | Some hasher \<Rightarrow>
             (case hasher_digest hasher (key_salt @ secret) of
                Inl e \<Rightarrow> Inl e
              | Inr key \<Rightarrow> hmac_new key (force_bytes w val) hasher))"

text \<open>
  An algorithm name "names a hash function supported by the hash library" when the
  module holds a hash constructor under it, extendable-output ones included.
\<close>

definition names_hash_function :: "'v world \<Rightarrow> string \<Rightarrow> bool" where
  "names_hash_function w algorithm =
     (case hashlib w algorithm of
        Some (HashCtor h) \<Rightarrow> True
      | Some (XofCtor name) \<Rightarrow> True
      | _ \<Rightarrow> False)"

section \<open>PBKDF2\<close>

text \<open>
  \<open>hashlib.pbkdf2_hmac(hash_name, password, salt, iterations, dklen)\<close> is PBKDF2 of
  RFC 8018 with HMAC as its pseudo-random function: block \<open>i\<close> is the \<open>XOR\<close> of
  \<open>iterations\<close> chained HMAC values, starting from the salt followed by \<open>i\<close> as
  four big-endian bytes; the blocks are concatenated and cut to \<open>dklen\<close> bytes.
\<close>

definition int_to_bytes4 :: "nat \<Rightarrow> bytes" where
  "int_to_bytes4 i = [of_nat (i div 2 ^ 24), of_nat (i div 2 ^ 16), of_nat (i div 2 ^ 8), of_nat i]"

fun pbkdf2_rounds :: "hash_info \<Rightarrow> bytes \<Rightarrow> nat \<Rightarrow> bytes \<Rightarrow> bytes \<Rightarrow> bytes" where
  "pbkdf2_rounds h password 0 u t = t"
| "pbkdf2_rounds h password (Suc c) u t =
     (let u' = hmac_digest h password u
      in pbkdf2_rounds h password c u' (map2 (XOR) t u'))"

definition pbkdf2_block :: "hash_info \<Rightarrow> bytes \<Rightarrow> bytes \<Rightarrow> nat \<Rightarrow> nat \<Rightarrow> bytes" where
  "pbkdf2_block h password salt iterations i =
     (let u1 = hmac_digest h password (salt @ int_to_bytes4 i)
      in pbkdf2_rounds h password (iterations - 1) u1 u1)"

definition pbkdf2_derive :: "hash_info \<Rightarrow> bytes \<Rightarrow> bytes \<Rightarrow> nat \<Rightarrow> nat \<Rightarrow> bytes" where
  "pbkdf2_derive h password salt iterations dklen =
     (let blocks = (dklen + digest_size h - 1) div digest_size h
      in take dklen (concat (map (pbkdf2_block h password salt iterations) [1..<Suc blocks])))"

text \<open>
  The function is written in C and takes its numbers as C integers (on a platform
  where \<open>long\<close> has 64 bits and \<open>int\<close> 32). In this order:
  \<^item> \<open>iterations\<close> is converted to a \<open>long\<close>: \<open>OverflowError\<close> outside its range;
  \<^item> the hash is looked up by its name: \<open>ValueError\<close> when the name is not that of
    a hash constructor;
  \<^item> \<open>OverflowError\<close> for a password, then for a salt, of more than \<open>INT_MAX\<close> bytes;
  \<^item> \<open>ValueError\<close> for \<open>iterations < 1\<close>, \<open>OverflowError\<close> for \<open>iterations > INT_MAX\<close>;
  \<^item> \<open>dklen\<close> is the digest size of the hash when it is \<open>None\<close>, and converted
    to a \<open>long\<close> otherwise; \<open>ValueError\<close> for \<open>dklen < 1\<close>, \<open>OverflowError\<close> for
    \<open>dklen > INT_MAX\<close>;
  \<^item> the key is derived. Over an extendable-output hash the derivation fails with
    \<open>ValueError\<close>.
\<close>

definition INT_MAX :: int where
  "INT_MAX = 2 ^ 31 - 1"

definition LONG_MIN :: int where
  "LONG_MIN = - (2 ^ 63)"

definition LONG_MAX :: int where
  "LONG_MAX = 2 ^ 63 - 1"

definition as_long :: "int \<Rightarrow> error + int" where
  "as_long n =
     (if n < LONG_MIN \<or> LONG_MAX < n then Inl (Builtin OverflowError) else Inr n)"

definition key_length :: "int \<Rightarrow> error + nat" where
  "key_length n =
     (if n < 1 then Inl (Builtin ValueError)
      else if INT_MAX < n then Inl (Builtin OverflowError)
      else Inr (nat n))"

definition pbkdf2_hmac ::
  "'v world \<Rightarrow> string \<Rightarrow> bytes \<Rightarrow> bytes \<Rightarrow> int \<Rightarrow> int option \<Rightarrow> error + bytes" where
  "pbkdf2_hmac w hash_name password salt iterations dklen =
     (case as_long iterations of
        Inl e \<Rightarrow> Inl e
      | Inr iterations \<Rightarrow>
          (case hashlib w hash_name of
             None \<Rightarrow> Inl (Builtin ValueError)
           | Some (Other e) \<Rightarrow> Inl (Builtin ValueError)
           | Some ctor \<Rightarrow>
               (if INT_MAX < int (length password) then Inl (Builtin OverflowError)
                else if INT_MAX < int (length salt) then Inl (Builtin OverflowError)
                else if iterations < 1 then Inl (Builtin ValueError)
                else if INT_MAX < iterations then Inl (Builtin OverflowError)
                else (case ctor of
                        HashCtor h \<Rightarrow>
                          (case (case dklen of
                                   None \<Rightarrow> Inr (int (digest_size h))
                                 | Some n \<Rightarrow> as_long n) of
                             Inl e \<Rightarrow> Inl e
                           | Inr n \<Rightarrow>
                               (case key_length n of
                                  Inl e \<Rightarrow> Inl e
                                | Inr k \<Rightarrow>
                                    Inr (pbkdf2_derive h password salt (nat iterations) k)))
                      | _ \<Rightarrow>
                          (case dklen of
                             None \<Rightarrow> Inl (Builtin ValueError)
                           | Some n \<Rightarrow>
                               (case as_long n of
                                  Inl e \<Rightarrow> Inl e
                                | Inr n \<Rightarrow>
                                    (case key_length n of
                                       Inl e \<Rightarrow> Inl e
                                     | Inr k \<Rightarrow> Inl (Builtin ValueError))))))))"

text \<open>
  \<open>digest().name\<close>: a constructor called without data gives an object that knows its
  name; anything else raises its exception.
\<close>

definition hasher_name :: "hashlib_attr \<Rightarrow> error + string" where
  "hasher_name hasher =
     (case hasher of
        HashCtor h \<Rightarrow> Inr (hname h)
      | XofCtor name \<Rightarrow> Inr name
      | Other e \<Rightarrow> Inl (Builtin e))"

text \<open>
  \<open>pbkdf2(password, salt, iterations, dklen=0, digest=None)\<close>. An argument left out
  is \<open>None\<close> here: \<open>dklen\<close> then takes its default 0, \<open>digest\<close> becomes
  \<open>hashlib.sha256\<close>. \<open>dklen or None\<close> turns 0 into \<open>None\<close> and keeps every other
  integer.
\<close>

definition pbkdf2 ::
  "'v world \<Rightarrow> 'v \<Rightarrow> 'v \<Rightarrow> int \<Rightarrow> int option \<Rightarrow> hashlib_attr option \<Rightarrow> error + bytes" where
  "pbkdf2 w password salt iterations dklen digest =
     (case (case digest of None \<Rightarrow> hashlib w ''sha256'' | Some d \<Rightarrow> Some d) of
        None \<Rightarrow> Inl (Builtin AttributeError)
      | Some digest \<Rightarrow>
          (let dklen = (case dklen of None \<Rightarrow> 0 | Some n \<Rightarrow> n);
               dklen = (if dklen \<noteq> 0 then Some dklen else None);
               password = force_bytes w password;
               salt = force_bytes w salt
           in case hasher_name digest of
                Inl e \<Rightarrow> Inl e
              | Inr name \<Rightarrow> pbkdf2_hmac w name password salt iterations dklen))"

section \<open>The encryption key\<close>

text \<open>
  \<open>str.encode()\<close> is UTF-8: one to four bytes for a code point, and
  \<open>UnicodeEncodeError\<close> for a surrogate (\<open>D800\<close> to \<open>DFFF\<close>). A \<open>str\<close> holds code
  points below \<open>110000\<close> only.
\<close>

definition utf8_char :: "nat \<Rightarrow> error + bytes" where
  "utf8_char c =
     (if c < 0x80 then Inr [of_nat c]
      else if c < 0x800 then Inr [of_nat (0xC0 + c div 64), of_nat (0x80 + c mod 64)]
      else if 0xD800 \<le> c \<and> c < 0xE000 then Inl (Builtin UnicodeEncodeError)
      else if c < 0x10000 then
        Inr [of_nat (0xE0 + c div 4096), of_nat (0x80 + c div 64 mod 64), of_nat (0x80 + c mod 64)]
      else
        Inr [of_nat (0xF0 + c div 262144), of_nat (0x80 + c div 4096 mod 64),
             of_nat (0x80 + c div 64 mod 64), of_nat (0x80 + c mod 64)])"

fun str_encode :: "pystr \<Rightarrow> error + bytes" where
  "str_encode [] = Inr []"
| "str_encode (c # cs) =
     (case utf8_char c of
        Inl e \<Rightarrow> Inl e
      | Inr b \<Rightarrow> (case str_encode cs of Inl e \<Rightarrow> Inl e | Inr bs \<Rightarrow> Inr (b @ bs)))"

text \<open>
  \<open>base64.urlsafe_b64encode\<close>: base64 of RFC 4648 over the alphabet that has \<open>-\<close>
  and \<open>_\<close> in the last two places, three bytes to four characters, the last group
  filled with \<open>=\<close>.
\<close>

definition urlsafe_alphabet :: bytes where
  "urlsafe_alphabet =
     py_bytes ''ABCDEFGHIJKLMNOPQRSTUVWXYZabcdefghijklmnopqrstuvwxyz0123456789-_''"

definition b64_pad :: byte where
  "b64_pad = 0x3D"

definition b64_char :: "nat \<Rightarrow> byte" where
  "b64_char n = urlsafe_alphabet ! n"

fun urlsafe_b64encode :: "bytes \<Rightarrow> bytes" where
  "urlsafe_b64encode (a # b # c # rest) =
     b64_char (unat a div 4) # b64_char (unat a mod 4 * 16 + unat b div 16)
       # b64_char (unat b mod 16 * 4 + unat c div 64) # b64_char (unat c mod 64)
       # urlsafe_b64encode rest"
| "urlsafe_b64encode [a, b] =
     [b64_char (unat a div 4), b64_char (unat a mod 4 * 16 + unat b div 16),
      b64_char (unat b mod 16 * 4), b64_pad]"
| "urlsafe_b64encode [a] =
     [b64_char (unat a div 4), b64_char (unat a mod 4 * 16), b64_pad, b64_pad]"
| "urlsafe_b64encode [] = []"

text \<open>
  The decoder, by which "decodes to" is read: groups of four characters of the
  alphabet, \<open>=\<close> allowed in the last one or two places of the last group only.
  \<open>base64.urlsafe_b64decode\<close> is more lenient on malformed input.
\<close>

fun index_of :: "'a \<Rightarrow> 'a list \<Rightarrow> nat option" where
  "index_of x [] = None"
| "index_of x (y # ys) =
     (if x = y then Some 0 else (case index_of x ys of None \<Rightarrow> None | Some i \<Rightarrow> Some (Suc i)))"

definition b64_value :: "byte \<Rightarrow> nat option" where
  "b64_value c = index_of c urlsafe_alphabet"

fun urlsafe_b64decode :: "bytes \<Rightarrow> bytes option" where
  "urlsafe_b64decode [] = Some []"
| "urlsafe_b64decode (c0 # c1 # c2 # c3 # rest) =
     (case (b64_value c0, b64_value c1) of
        (Some s0, Some s1) \<Rightarrow>
          (if rest = [] \<and> c2 = b64_pad \<and> c3 = b64_pad then Some [of_nat (s0 * 4 + s1 div 16)]
           else (case b64_value c2 of
                   None \<Rightarrow> None
                 | Some s2 \<Rightarrow>
                     (if rest = [] \<and> c3 = b64_pad
                      then Some [of_nat (s0 * 4 + s1 div 16), of_nat (s1 mod 16 * 16 + s2 div 4)]
                      else (case b64_value c3 of
                              None \<Rightarrow> None
                            | Some s3 \<Rightarrow>
                                (case urlsafe_b64decode rest of
                                   None \<Rightarrow> None
                                 | Some bs \<Rightarrow>
                                     Some (of_nat (s0 * 4 + s1 div 16)
                                           # of_nat (s1 mod 16 * 16 + s2 div 4)
                                           # of_nat (s2 mod 4 * 64 + s3) # bs))))))
      | _ \<Rightarrow> None)"
| "urlsafe_b64decode _ = None"

text \<open>
  \<^verbatim>\<open>f"{secret:<32}"\<close> fills the string with spaces on the right up to 32 characters
  and leaves a longer string as it is.
\<close>

definition format_left :: "nat \<Rightarrow> pystr \<Rightarrow> pystr" where
  "format_left width s = s @ replicate (width - length s) 0x20"

text \<open>
  \<open>PasswordManager.get_encryption_key(secret)\<close>: the padding and the slice \<open>[:32]\<close>
  are under the test \<open>len(secret) <= 32\<close>; a longer secret goes to the encoder
  unchanged.
\<close>

definition get_encryption_key :: "pystr \<Rightarrow> error + bytes" where
  "get_encryption_key secret =
     (let secret = (if length secret \<le> 32 then take 32 (format_left 32 secret) else secret)
      in case str_encode secret of
           Inl e \<Rightarrow> Inl e
         | Inr b \<Rightarrow> Inr (urlsafe_b64encode b))"

section \<open>An example world\<close>

text \<open>
  A small world on which the definitions can be run. Values are \<open>bytes\<close> and
  \<open>force_bytes\<close> leaves them as they are; the random source delivers \<open>3, 10, 17, ...\<close>.
  \<open>example_hashlib\<close> has some of the names of \<open>hashlib\<close>, each with the kind of
  attribute and the sizes it has there; in place of the compression functions
  stands \<open>stand_in_hash\<close>, which only has the right output length.
\<close>

definition stand_in_hash :: "nat \<Rightarrow> bytes \<Rightarrow> bytes" where
  "stand_in_hash n m = replicate n (fold (\<lambda>b acc. 31 * acc + b) m 7)"

definition example_sha256 :: hash_info where
  "example_sha256 =
     \<lparr>hname = ''sha256'', digest_size = 32, block_size = 64, hfun = stand_in_hash 32\<rparr>"

definition example_hashlib :: "string \<Rightarrow> hashlib_attr option" where
  "example_hashlib =
     map_of
       [(''md5'', HashCtor \<lparr>hname = ''md5'', digest_size = 16, block_size = 64, hfun = stand_in_hash 16\<rparr>),
        (''sha1'', HashCtor \<lparr>hname = ''sha1'', digest_size = 20, block_size = 64, hfun = stand_in_hash 20\<rparr>),
        (''sha256'', HashCtor example_sha256),
        (''sha512'', HashCtor \<lparr>hname = ''sha512'', digest_size = 64, block_size = 128, hfun = stand_in_hash 64\<rparr>),
        (''shake_128'', XofCtor ''shake_128''),
        (''shake_256'', XofCtor ''shake_256''),
        (''new'', Other TypeError),
        (''pbkdf2_hmac'', Other TypeError),
        (''algorithms_guaranteed'', Other TypeError),
        (''algorithms_available'', Other TypeError)]"

definition example_world :: "bytes world" where
  "example_world =
     \<lparr> SECRET_KEY = py_bytes ''k3y'',
       force_bytes = (\<lambda>b. b),
       hashlib = example_hashlib,
       source = (\<lambda>i. 7 * i + 3),
       drawn = 0 \<rparr>"

section \<open>Properties of the random strings\<close>

lemma join_choices_nonempty:
  "allowed_chars \<noteq> [] \<Longrightarrow>
   \<exists>s. fst (join_choices k allowed_chars w) = Inr s \<and> length s = k \<and> set s \<subseteq> set allowed_chars
       \<and> snd (join_choices k allowed_chars w) = w\<lparr>drawn := drawn w + k\<rparr>"
proof (induction k arbitrary: w)
  case 0
  then show ?case by simp
next
  case (Suc k)
  let ?i = "source w (drawn w) mod length allowed_chars"
  let ?w' = "w\<lparr>drawn := Suc (drawn w)\<rparr>"
  from Suc.prems have pos: "0 < length allowed_chars" by simp
  then have i: "?i < length allowed_chars" by simp
  have ch: "choice allowed_chars w = (Inr (allowed_chars ! ?i), ?w')"
    using pos by (simp add: choice_def randbelow_def)
  from Suc.IH [OF Suc.prems, of ?w'] obtain s where
    s: "fst (join_choices k allowed_chars ?w') = Inr s" "length s = k"
       "set s \<subseteq> set allowed_chars"
       "snd (join_choices k allowed_chars ?w') = ?w'\<lparr>drawn := drawn ?w' + k\<rparr>"
    by blast
  obtain r w'' where jc: "join_choices k allowed_chars ?w' = (r, w'')"
    by (cases "join_choices k allowed_chars ?w'")
  with s have r: "r = Inr s" and w'': "w'' = ?w'\<lparr>drawn := drawn ?w' + k\<rparr>" by simp_all
  have "join_choices (Suc k) allowed_chars w = (Inr (allowed_chars ! ?i # s), w'')"
    by (simp add: ch jc r)
  moreover have "allowed_chars ! ?i \<in> set allowed_chars" using i by simp
  ultimately show ?case using s(2,3) w'' by simp
qed

text \<open>
  C7: for a positive \<open>length\<close> and a non-empty alphabet, \<open>get_random_string\<close> returns
  (raising nothing) a string of exactly \<open>length\<close> characters, each of them a member
  of \<open>allowed_chars\<close>; \<open>get_random_secret_key\<close> does the same over its fixed alphabet
  of lowercase letters, digits and punctuation.
\<close>

theorem get_random_string_length_and_alphabet:
  "(0 < len \<and> allowed_chars \<noteq> [] \<longrightarrow>
      (\<exists>s. fst (get_random_string len allowed_chars w) = Inr s
           \<and> int (length s) = len \<and> set s \<subseteq> set allowed_chars))
   \<and> (0 < len \<longrightarrow>
      (\<exists>s. fst (get_random_secret_key len w) = Inr s
           \<and> int (length s) = len
           \<and> set s \<subseteq> set (py_str ''abcdefghijklmnopqrstuvwxyz0123456789!@#$%^&*(-_=+)'')))"
proof (intro conjI impI)
  assume a: "0 < len \<and> allowed_chars \<noteq> []"
  from join_choices_nonempty [of allowed_chars "nat len" w] a
  show "\<exists>s. fst (get_random_string len allowed_chars w) = Inr s
          \<and> int (length s) = len \<and> set s \<subseteq> set allowed_chars"
    by (auto simp: get_random_string_def)
next
  assume a: "0 < len"
  have ne: "py_str ''abcdefghijklmnopqrstuvwxyz0123456789!@#$%^&*(-_=+)'' \<noteq> []"
    by (simp add: py_str_def)
  from join_choices_nonempty [OF ne, of "nat len" w] a
  show "\<exists>s. fst (get_random_secret_key len w) = Inr s
          \<and> int (length s) = len
          \<and> set s \<subseteq> set (py_str ''abcdefghijklmnopqrstuvwxyz0123456789!@#$%^&*(-_=+)'')"
    by (auto simp: get_random_secret_key_def get_random_string_def Let_def)
qed

theorem get_random_string_length_and_alphabet_witness:
  "(0::int) < 3 \<and> py_str ''xyz'' \<noteq> []
   \<and> fst (get_random_string 3 (py_str ''xyz'') example_world) = Inr (py_str ''xyz'')
   \<and> (\<exists>s. fst (get_random_string 3 (py_str ''xyz'') example_world) = Inr s
          \<and> int (length s) = 3 \<and> set s \<subseteq> set (py_str ''xyz''))
   \<and> fst (get_random_secret_key 3 example_world) = Inr (py_str ''dkr'')
   \<and> (\<exists>s. fst (get_random_secret_key 3 example_world) = Inr s
          \<and> int (length s) = 3
          \<and> set s \<subseteq> set (py_str ''abcdefghijklmnopqrstuvwxyz0123456789!@#$%^&*(-_=+)''))"
proof -
  have h: "(0::int) < 3 \<and> py_str ''xyz'' \<noteq> []" by (simp add: py_str_def)
  have run: "fst (get_random_string 3 (py_str ''xyz'') example_world) = Inr (py_str ''xyz'')"
    by code_simp
  have run_key: "fst (get_random_secret_key 3 example_world) = Inr (py_str ''dkr'')"
    by code_simp
  from get_random_string_length_and_alphabet [of 3 "py_str ''xyz''" example_world] h run run_key
  show ?thesis by blast
qed

text \<open>
  C10: \<open>get_random_string\<close> asks nothing of \<open>length\<close>: for zero and for every negative
  integer it returns the empty string, raises nothing (not even on an empty
  alphabet) and draws nothing from the random source.
\<close>

theorem get_random_string_nonpositive:
  "len \<le> 0 \<Longrightarrow> get_random_string len allowed_chars w = (Inr [], w)"
  by (simp add: get_random_string_def)

theorem get_random_string_nonpositive_witness:
  "(0::int) \<le> 0 \<and> (-5::int) \<le> 0
   \<and> get_random_string 0 (py_str ''ab'') example_world = (Inr [], example_world)
   \<and> get_random_string (-5) ([]::pystr) example_world = (Inr [], example_world)"
  using get_random_string_nonpositive [of 0 "py_str ''ab''" example_world]
        get_random_string_nonpositive [of "-5" "[]::pystr" example_world]
  by simp

section \<open>Properties of the constant-time comparison\<close>

lemma xor_byte_eq_0: "(l XOR r = 0) = (l = r)" for l r :: byte
  by (metis xor.right_neutral xor_self_eq xor.assoc xor.commute)

lemma tscmp_loop_same_length:
  "length left = length right \<Longrightarrow>
   (tscmp_loop result left right = 0) = (result = 0 \<and> left = right)"
proof (induction result left right rule: tscmp_loop.induct)
  case (1 result l left r right)
  then show ?case by (auto simp: or_eq_0_iff xor_byte_eq_0)
qed simp_all

lemma tscmp_loop_nonzero: "result \<noteq> 0 \<Longrightarrow> tscmp_loop result left right \<noteq> 0"
  by (induction result left right rule: tscmp_loop.induct) (simp_all add: or_eq_0_iff)

lemma compare_digest_eq: "compare_digest a b = (a = b)"
proof (cases "length a = length b")
  case True
  then show ?thesis by (simp add: compare_digest_def tscmp_loop_same_length)
next
  case False
  then have "a \<noteq> b" by auto
  moreover have "tscmp_loop 1 b b \<noteq> 0" by (rule tscmp_loop_nonzero) simp
  ultimately show ?thesis using False by (simp add: compare_digest_def)
qed

text \<open>
  C4: \<open>constant_time_compare x x\<close> is true for every value \<open>x\<close>, and
  \<open>constant_time_compare x y\<close> is false whenever the byte representations of \<open>x\<close>
  and \<open>y\<close> (what \<open>force_bytes\<close> makes of them) differ, in content or in length.
\<close>

theorem constant_time_compare_correct:
  "constant_time_compare w x x
   \<and> (force_bytes w x \<noteq> force_bytes w y \<longrightarrow> \<not> constant_time_compare w x y)"
  by (simp add: constant_time_compare_def compare_digest_eq)

theorem constant_time_compare_correct_witness:
  "constant_time_compare example_world (py_bytes ''abc'') (py_bytes ''abc'')
   \<and> force_bytes example_world (py_bytes ''abc'') \<noteq> force_bytes example_world (py_bytes ''abcd'')
   \<and> \<not> constant_time_compare example_world (py_bytes ''abc'') (py_bytes ''abcd'')
   \<and> force_bytes example_world (py_bytes ''abc'') \<noteq> force_bytes example_world (py_bytes ''abd'')
   \<and> \<not> constant_time_compare example_world (py_bytes ''abc'') (py_bytes ''abd'')"
  using constant_time_compare_correct [of example_world "py_bytes ''abc''" "py_bytes ''abcd''"]
        constant_time_compare_correct [of example_world "py_bytes ''abc''" "py_bytes ''abd''"]
  by (simp add: example_world_def py_bytes_def)

section \<open>Properties of \<open>salted_hmac\<close>\<close>

lemma example_hashlib_new: "example_hashlib ''new'' = Some (Other TypeError)"
  by (simp add: example_hashlib_def)

lemma example_hashlib_shake_128: "example_hashlib ''shake_128'' = Some (XofCtor ''shake_128'')"
  by (simp add: example_hashlib_def)

lemma example_hashlib_sha256: "example_hashlib ''sha256'' = Some (HashCtor example_sha256)"
  by (simp add: example_hashlib_def)

text \<open>
  C2: \<open>salted_hmac\<close> is to raise \<open>InvalidAlgorithm\<close> for every algorithm name that
  names no hash function of the library, and nothing for a name that does. The
  code does neither at these names. \<open>new\<close> is an attribute of \<open>hashlib\<close> and names
  no hash function: \<open>getattr\<close> finds it, no \<open>InvalidAlgorithm\<close> is raised, and the
  call \<open>hashlib.new(key_salt + secret)\<close> raises \<open>TypeError\<close>. \<open>shake_128\<close> names a
  hash function of the library, and \<open>salted_hmac\<close> raises \<open>TypeError\<close> for it, from
  \<open>digest()\<close> called without a length.
\<close>

theorem salted_hmac_raises_type_error:
  "\<not> names_hash_function example_world ''new''
   \<and> salted_hmac example_world (py_bytes ''salt'') (py_bytes ''value'') None ''new''
       = Inl (Builtin TypeError)
   \<and> names_hash_function example_world ''shake_128''
   \<and> salted_hmac example_world (py_bytes ''salt'') (py_bytes ''value'') None ''shake_128''
       = Inl (Builtin TypeError)"
  by (simp add: names_hash_function_def salted_hmac_def example_world_def
      example_hashlib_new example_hashlib_shake_128 hasher_digest_def)

text \<open>
  C3, as amended: for an algorithm name under which \<open>hashlib\<close> has a fixed-length
  hash constructor \<open>h\<close>, \<open>salted_hmac\<close> returns the HMAC object over \<open>h\<close> whose key is the \<open>h\<close>-digest of
  the bytes of \<open>key_salt\<close> followed by the bytes of the secret and whose message is
  the bytes of \<open>value\<close>, so that its digest is HMAC(key, value bytes) under \<open>h\<close>; a
  call without \<open>secret\<close> is the call with \<open>settings.SECRET_KEY\<close> as the secret.
\<close>

theorem salted_hmac_result:
  "hashlib w algorithm = Some (HashCtor h) \<Longrightarrow>
     salted_hmac w key_salt val (Some secret) algorithm =
       Inr \<lparr> digestmod = h,
             hmac_key = hfun h (force_bytes w key_salt @ force_bytes w secret),
             hmac_msg = force_bytes w val \<rparr>
   \<and> salted_hmac w key_salt val None algorithm =
       salted_hmac w key_salt val (Some (SECRET_KEY w)) algorithm
   \<and> (\<exists>obj. salted_hmac w key_salt val (Some secret) algorithm = Inr obj
        \<and> hmac_object_digest obj =
            hmac_digest h (hfun h (force_bytes w key_salt @ force_bytes w secret))
              (force_bytes w val))"
  by (simp add: salted_hmac_def hasher_digest_def hmac_new_def hmac_object_digest_def)

theorem salted_hmac_result_witness:
  "hashlib example_world ''sha256'' = Some (HashCtor example_sha256)
   \<and> salted_hmac example_world (py_bytes ''salt'') (py_bytes ''value'') None ''sha256'' =
       salted_hmac example_world (py_bytes ''salt'') (py_bytes ''value'')
         (Some (py_bytes ''k3y'')) ''sha256''
   \<and> salted_hmac example_world (py_bytes ''salt'') (py_bytes ''value'')
         (Some (py_bytes ''s3cret'')) ''sha256'' =
       Inr \<lparr> digestmod = example_sha256,
             hmac_key = hfun example_sha256 (py_bytes ''salts3cret''),
             hmac_msg = py_bytes ''value'' \<rparr>"
  using salted_hmac_result
          [of example_world "''sha256''" example_sha256
              "py_bytes ''salt''" "py_bytes ''value''" "py_bytes ''s3cret''"]
  by (simp add: example_world_def example_hashlib_sha256 py_bytes_def)

lemma example_hashlib_shake_256: "example_hashlib ''shake_256'' = Some (XofCtor ''shake_256'')"
  by (simp add: example_hashlib_def)

text \<open>
  C3 as it was stated, for every algorithm that the library supports, fails:
  \<open>shake_256\<close> is a hash function of \<open>hashlib\<close>, and \<open>salted_hmac\<close> returns no HMAC
  for it, with a secret given or without; it raises \<open>TypeError\<close>.
\<close>

theorem salted_hmac_result_counterexample:
  "names_hash_function example_world ''shake_256''
   \<and> salted_hmac example_world (py_bytes ''salt'') (py_bytes ''value'')
         (Some (py_bytes ''s3cret'')) ''shake_256''
       = Inl (Builtin TypeError)
   \<and> salted_hmac example_world (py_bytes ''salt'') (py_bytes ''value'') None ''shake_256''
       = Inl (Builtin TypeError)"
  by (simp add: names_hash_function_def salted_hmac_def example_world_def
      example_hashlib_shake_256 hasher_digest_def)

section \<open>Properties of \<open>pbkdf2\<close>\<close>

text \<open>
  C5: \<open>pbkdf2\<close> is deterministic. Its result, the derived bytes or the error, is
  fixed by its arguments: a second call with the same arguments gives the same
  result whatever has happened in between to the process-wide secret and to the
  random source.
\<close>

theorem pbkdf2_deterministic:
  "pbkdf2 (w\<lparr>SECRET_KEY := key, source := src, drawn := n\<rparr>) password salt iterations dklen digest
   = pbkdf2 w password salt iterations dklen digest"
  by (simp add: pbkdf2_def pbkdf2_hmac_def Let_def split: option.splits sum.splits)

lemma length_hmac_digest:
  "\<forall>m. length (hfun h m) = digest_size h \<Longrightarrow> length (hmac_digest h key msg) = digest_size h"
  by (simp add: hmac_digest_def Let_def)

lemma length_pbkdf2_rounds:
  "\<forall>m. length (hfun h m) = digest_size h \<Longrightarrow> length t = digest_size h \<Longrightarrow>
   length (pbkdf2_rounds h password c u t) = digest_size h"
  by (induction c arbitrary: u t) (simp_all add: Let_def length_hmac_digest)

lemma length_pbkdf2_block:
  "\<forall>m. length (hfun h m) = digest_size h \<Longrightarrow>
   length (pbkdf2_block h password salt iterations i) = digest_size h"
  by (simp add: pbkdf2_block_def Let_def length_pbkdf2_rounds length_hmac_digest)

lemma length_concat_blocks:
  "(\<And>x. length (f x) = d) \<Longrightarrow> length (concat (map f xs)) = length xs * d"
  by (induction xs) simp_all

lemma blocks_cover: "0 < d \<Longrightarrow> n \<le> ((n + d - 1) div d) * (d::nat)"
proof -
  assume d: "0 < d"
  have "(n + d - 1) = ((n + d - 1) div d) * d + (n + d - 1) mod d" by simp
  moreover have "(n + d - 1) mod d < d" using d by simp
  ultimately show ?thesis by linarith
qed

lemma length_pbkdf2_derive:
  assumes "\<forall>m. length (hfun h m) = digest_size h" and "0 < digest_size h"
  shows "length (pbkdf2_derive h password salt iterations dklen) = dklen"
proof -
  let ?b = "(dklen + digest_size h - 1) div digest_size h"
  have "length (concat (map (pbkdf2_block h password salt iterations) [1..<Suc ?b]))
        = ?b * digest_size h"
    using length_concat_blocks
            [of "pbkdf2_block h password salt iterations" "digest_size h" "[1..<Suc ?b]"]
      length_pbkdf2_block [OF assms(1)] by simp
  with blocks_cover [OF assms(2), of dklen] show ?thesis
    by (simp add: pbkdf2_derive_def Let_def)
qed

lemma length_pbkdf2_derive_natural:
  assumes "\<forall>m. length (hfun h m) = digest_size h"
  shows "length (pbkdf2_derive h password salt iterations (digest_size h)) = digest_size h"
proof (cases "digest_size h = 0")
  case True
  then show ?thesis by (simp add: pbkdf2_derive_def)
next
  case False
  then show ?thesis using length_pbkdf2_derive [OF assms] by simp
qed

lemma length_stand_in_hash: "\<forall>m. length (hfun example_sha256 m) = digest_size example_sha256"
  by (simp add: example_sha256_def stand_in_hash_def)

text \<open>
  C6, as amended: for a password and a salt of fewer than \<open>2^31\<close> bytes each and an
  iteration count from 1 to \<open>2^31 - 1\<close>, \<open>pbkdf2\<close> with \<open>dklen\<close> 0 or left out
  returns a key as long as the digest of the hash is. The hash \<open>h\<close> is the one
  that \<open>digest\<close> (by default \<open>hashlib.sha256\<close>) constructs and that \<open>hashlib\<close> knows
  under its name; its digests all have \<open>digest_size h\<close> bytes, a positive number
  below \<open>2^31\<close>. For the default digest these are the 32 bytes of \<open>sha256\<close>.
\<close>

theorem pbkdf2_natural_length:
  assumes "0 < iterations" and "iterations < 2 ^ 31"
    and "length (force_bytes w password) < 2 ^ 31"
    and "length (force_bytes w salt) < 2 ^ 31"
    and "dklen = None \<or> dklen = Some 0"
    and "(case digest of None \<Rightarrow> hashlib w ''sha256'' | Some d \<Rightarrow> Some d) = Some (HashCtor h)"
    and "hashlib w (hname h) = Some (HashCtor h)"
    and "\<forall>m. length (hfun h m) = digest_size h"
    and "0 < digest_size h" and "digest_size h < 2 ^ 31"
  shows "\<exists>dk. pbkdf2 w password salt iterations dklen digest = Inr dk
              \<and> length dk = digest_size h"
proof -
  have long: "as_long iterations = Inr iterations"
    using assms(1,2) by (simp add: as_long_def LONG_MIN_def LONG_MAX_def)
  have size: "key_length (int (digest_size h)) = Inr (digest_size h)"
    using assms(9,10) by (simp add: key_length_def INT_MAX_def)
  have args: "\<not> INT_MAX < int (length (force_bytes w password))"
    "\<not> INT_MAX < int (length (force_bytes w salt))"
    "\<not> iterations < 1" "\<not> INT_MAX < iterations"
    using assms(1-4) by (simp_all add: INT_MAX_def)
  have "pbkdf2_hmac w (hname h) (force_bytes w password) (force_bytes w salt) iterations None =
        Inr (pbkdf2_derive h (force_bytes w password) (force_bytes w salt) (nat iterations)
               (digest_size h))"
    using assms(7) long size args by (simp add: pbkdf2_hmac_def)
  then have "pbkdf2 w password salt iterations dklen digest =
        Inr (pbkdf2_derive h (force_bytes w password) (force_bytes w salt) (nat iterations)
               (digest_size h))"
    using assms(5,6) by (auto simp: pbkdf2_def hasher_name_def Let_def)
  then show ?thesis using length_pbkdf2_derive_natural [OF assms(8)] by simp
qed

theorem pbkdf2_natural_length_witness:
  "(0::int) < 1000 \<and> (1000::int) < 2 ^ 31
   \<and> length (force_bytes example_world (py_bytes ''password'')) < 2 ^ 31
   \<and> length (force_bytes example_world (py_bytes ''salt'')) < 2 ^ 31
   \<and> hashlib example_world ''sha256'' = Some (HashCtor example_sha256)
   \<and> hashlib example_world (hname example_sha256) = Some (HashCtor example_sha256)
   \<and> (\<forall>m. length (hfun example_sha256 m) = digest_size example_sha256)
   \<and> 0 < digest_size example_sha256 \<and> digest_size example_sha256 < 2 ^ 31
   \<and> (\<exists>dk. pbkdf2 example_world (py_bytes ''password'') (py_bytes ''salt'') 1000 None None
              = Inr dk \<and> length dk = 32)
   \<and> (\<exists>dk. pbkdf2 example_world (py_bytes ''password'') (py_bytes ''salt'') 1000 (Some 0) None
              = Inr dk \<and> length dk = 32)"
proof -
  have lib: "hashlib example_world ''sha256'' = Some (HashCtor example_sha256)"
    by (simp add: example_world_def example_hashlib_sha256)
  have name: "hname example_sha256 = ''sha256''" and size: "digest_size example_sha256 = 32"
    by (simp_all add: example_sha256_def)
  have dflt: "(case None of None \<Rightarrow> hashlib example_world ''sha256'' | Some d \<Rightarrow> Some d)
              = Some (HashCtor example_sha256)"
    using lib by simp
  have lib': "hashlib example_world (hname example_sha256) = Some (HashCtor example_sha256)"
    using lib name by simp
  have pos: "(0::int) < 1000" and small: "(1000::int) < 2 ^ 31" by simp_all
  have pw: "length (force_bytes example_world (py_bytes ''password'')) < 2 ^ 31"
    and st: "length (force_bytes example_world (py_bytes ''salt'')) < 2 ^ 31"
    by (simp_all add: example_world_def py_bytes_def)
  have ds: "0 < digest_size example_sha256" "digest_size example_sha256 < 2 ^ 31"
    by (simp_all add: size)
  have unset: "(None :: int option) = None \<or> (None :: int option) = Some 0" by simp
  have zero: "Some (0::int) = None \<or> Some (0::int) = Some 0" by simp
  from pbkdf2_natural_length [OF pos small pw st unset dflt lib' length_stand_in_hash ds]
       pbkdf2_natural_length [OF pos small pw st zero dflt lib' length_stand_in_hash ds]
       pos small pw st lib lib' length_stand_in_hash ds size
  show ?thesis by simp
qed

text \<open>
  C6 as it was stated, for every password, salt and positive iteration count,
  fails: with \<open>2^31\<close> iterations, and with a password of \<open>2^31\<close> bytes, \<open>pbkdf2\<close>
  returns no key; \<open>hashlib.pbkdf2_hmac\<close> raises \<open>OverflowError\<close>.
\<close>

theorem pbkdf2_natural_length_counterexample:
  "pbkdf2 example_world (py_bytes ''password'') (py_bytes ''salt'') (2 ^ 31) None None
     = Inl (Builtin OverflowError)
   \<and> pbkdf2 example_world (py_bytes ''password'') (py_bytes ''salt'') (2 ^ 31) (Some 0) None
     = Inl (Builtin OverflowError)
   \<and> pbkdf2 example_world (replicate (2 ^ 31) 0) (py_bytes ''salt'') 1 None None
     = Inl (Builtin OverflowError)"
proof -
  have lib: "hashlib example_world ''sha256'' = Some (HashCtor example_sha256)"
    by (simp add: example_world_def example_hashlib_sha256)
  have name: "hname example_sha256 = ''sha256''"
    by (simp add: example_sha256_def)
  have fb: "force_bytes example_world = (\<lambda>b. b)"
    by (simp add: example_world_def)
  have salt: "\<not> INT_MAX < int (length (py_bytes ''salt''))"
    and pw: "\<not> INT_MAX < int (length (py_bytes ''password''))"
    by (simp_all add: INT_MAX_def py_bytes_def)
  have big: "INT_MAX < int (length (replicate (2 ^ 31) (0::byte)))"
    by (simp add: INT_MAX_def)
  have long: "as_long (2 ^ 31) = Inr (2 ^ 31)" "as_long 1 = Inr 1"
    by (simp_all add: as_long_def LONG_MIN_def LONG_MAX_def)
  have many: "INT_MAX < 2 ^ 31" "\<not> (2 ^ 31 :: int) < 1"
    by (simp_all add: INT_MAX_def)
  show ?thesis
    using lib name salt pw big long many
    by (simp add: pbkdf2_def pbkdf2_hmac_def hasher_name_def fb)
qed

section \<open>Base64 encoding and decoding\<close>

lemma alphabet_length: "length urlsafe_alphabet = 64"
  by (simp add: urlsafe_alphabet_def py_bytes_def)

lemma alphabet_distinct: "distinct urlsafe_alphabet"
  by (simp add: urlsafe_alphabet_def py_bytes_def)

lemma pad_not_in_alphabet: "b64_pad \<notin> set urlsafe_alphabet"
  by (simp add: urlsafe_alphabet_def py_bytes_def b64_pad_def)

lemma index_of_nth: "distinct xs \<Longrightarrow> n < length xs \<Longrightarrow> index_of (xs ! n) xs = Some n"
proof (induction xs arbitrary: n)
  case Nil
  then show ?case by simp
next
  case (Cons y ys)
  show ?case
  proof (cases n)
    case 0
    then show ?thesis by simp
  next
    case (Suc m)
    with Cons.prems have "ys ! m \<in> set ys" "y \<notin> set ys" by simp_all
    then have "ys ! m \<noteq> y" by auto
    with Suc Cons show ?thesis by simp
  qed
qed

lemma b64_value_char: "n < 64 \<Longrightarrow> b64_value (b64_char n) = Some n"
  by (simp add: b64_value_def b64_char_def index_of_nth alphabet_distinct alphabet_length)

lemma b64_char_in_alphabet: "n < 64 \<Longrightarrow> b64_char n \<in> set urlsafe_alphabet"
  by (simp add: b64_char_def alphabet_length)


lemma b64_char_not_pad: "n < 64 \<Longrightarrow> b64_char n \<noteq> b64_pad"
  using pad_not_in_alphabet b64_char_in_alphabet [of n] by auto

lemma unat_byte_less: "unat (a :: byte) < 256"
proof -
  have "unat a < 2 ^ LENGTH(8)" by (rule unsigned_less)
  then show ?thesis by simp
qed

lemma high_nibble_less: "unat (b :: byte) div 16 < 16"
  using unat_byte_less [of b] by (simp add: less_mult_imp_div_less)

lemma high_pair_less: "unat (c :: byte) div 64 < 4"
  using unat_byte_less [of c] by (simp add: less_mult_imp_div_less)

lemma sextet_bounds:
  "unat a div 4 < 64"
  "unat a mod 4 * 16 + unat b div 16 < 64"
  "unat b mod 16 * 4 + unat c div 64 < 64"
  "unat c mod 64 < 64"
  "unat b mod 16 * 4 < 64"
  "unat a mod 4 * 16 < 64"
  for a b c :: byte
proof -
  have a4: "unat a mod 4 < 4" and b16: "unat b mod 16 < 16" by simp_all
  show "unat a div 4 < 64"
    using unat_byte_less [of a] by (simp add: less_mult_imp_div_less)
  show "unat a mod 4 * 16 + unat b div 16 < 64"
    using a4 high_nibble_less [of b] by linarith
  show "unat b mod 16 * 4 + unat c div 64 < 64"
    using b16 high_pair_less [of c] by linarith
  show "unat c mod 64 < 64" by simp
  show "unat b mod 16 * 4 < 64" using b16 by linarith
  show "unat a mod 4 * 16 < 64" using a4 by linarith
qed

lemma shift_in_div: "x < n \<Longrightarrow> (k * n + x) div n = k" for k n x :: nat
  by simp

lemma shift_in_mod: "x < n \<Longrightarrow> (k * n + x) mod n = x" for k n x :: nat
  by simp

lemma regroup_first:
  "of_nat (unat a div 4 * 4 + (unat a mod 4 * 16 + unat b div 16) div 16) = a"
  for a b :: byte
proof -
  have "(unat a mod 4 * 16 + unat b div 16) div 16 = unat a mod 4"
    by (rule shift_in_div) (rule high_nibble_less)
  then have "unat a div 4 * 4 + (unat a mod 4 * 16 + unat b div 16) div 16 = unat a"
    by (simp only: div_mult_mod_eq)
  then show ?thesis by (simp only: of_nat_unat ucast_id)
qed

lemma regroup_first_last:
  "of_nat (unat a div 4 * 4 + (unat a mod 4 * 16) div 16) = a"
  for a :: byte
proof -
  have "(unat a mod 4 * 16) div 16 = unat a mod 4" by simp
  then have "unat a div 4 * 4 + (unat a mod 4 * 16) div 16 = unat a"
    by (simp only: div_mult_mod_eq)
  then show ?thesis by (simp only: of_nat_unat ucast_id)
qed

lemma regroup_second:
  "of_nat ((unat a mod 4 * 16 + unat b div 16) mod 16 * 16
           + (unat b mod 16 * 4 + unat c div 64) div 4) = b"
  for a b c :: byte
proof -
  have "(unat a mod 4 * 16 + unat b div 16) mod 16 = unat b div 16"
    by (rule shift_in_mod) (rule high_nibble_less)
  moreover have "(unat b mod 16 * 4 + unat c div 64) div 4 = unat b mod 16"
    by (rule shift_in_div) (rule high_pair_less)
  ultimately have "(unat a mod 4 * 16 + unat b div 16) mod 16 * 16
           + (unat b mod 16 * 4 + unat c div 64) div 4 = unat b"
    by (simp only: div_mult_mod_eq)
  then show ?thesis by (simp only: of_nat_unat ucast_id)
qed

lemma regroup_second_last:
  "of_nat ((unat a mod 4 * 16 + unat b div 16) mod 16 * 16 + (unat b mod 16 * 4) div 4) = b"
  for a b :: byte
proof -
  have "(unat a mod 4 * 16 + unat b div 16) mod 16 = unat b div 16"
    by (rule shift_in_mod) (rule high_nibble_less)
  moreover have "(unat b mod 16 * 4) div 4 = unat b mod 16" by simp
  ultimately have "(unat a mod 4 * 16 + unat b div 16) mod 16 * 16 + (unat b mod 16 * 4) div 4 = unat b"
    by (simp only: div_mult_mod_eq)
  then show ?thesis by (simp only: of_nat_unat ucast_id)
qed

lemma regroup_third:
  "of_nat ((unat b mod 16 * 4 + unat c div 64) mod 4 * 64 + unat c mod 64) = c"
  for b c :: byte
proof -
  have "(unat b mod 16 * 4 + unat c div 64) mod 4 = unat c div 64"
    by (rule shift_in_mod) (rule high_pair_less)
  then have "(unat b mod 16 * 4 + unat c div 64) mod 4 * 64 + unat c mod 64 = unat c"
    by (simp only: div_mult_mod_eq)
  then show ?thesis by (simp only: of_nat_unat ucast_id)
qed

lemma decode_full_group:
  assumes "s0 < 64" "s1 < 64" "s2 < 64" "s3 < 64"
  shows "urlsafe_b64decode (b64_char s0 # b64_char s1 # b64_char s2 # b64_char s3 # rest) =
         (case urlsafe_b64decode rest of
            None \<Rightarrow> None
          | Some bs \<Rightarrow> Some (of_nat (s0 * 4 + s1 div 16) # of_nat (s1 mod 16 * 16 + s2 div 4)
                             # of_nat (s2 mod 4 * 64 + s3) # bs))"
  using assms by (simp only: urlsafe_b64decode.simps b64_value_char b64_char_not_pad
      prod.case option.case simp_thms if_False)

lemma decode_two_byte_group:
  assumes "s0 < 64" "s1 < 64" "s2 < 64"
  shows "urlsafe_b64decode [b64_char s0, b64_char s1, b64_char s2, b64_pad] =
         Some [of_nat (s0 * 4 + s1 div 16), of_nat (s1 mod 16 * 16 + s2 div 4)]"
  using assms by (simp only: urlsafe_b64decode.simps b64_value_char b64_char_not_pad
      prod.case option.case simp_thms if_False if_True)

lemma decode_one_byte_group:
  assumes "s0 < 64" "s1 < 64"
  shows "urlsafe_b64decode [b64_char s0, b64_char s1, b64_pad, b64_pad] =
         Some [of_nat (s0 * 4 + s1 div 16)]"
  using assms by (simp only: urlsafe_b64decode.simps b64_value_char
      prod.case option.case simp_thms if_True)

lemma urlsafe_b64_roundtrip: "urlsafe_b64decode (urlsafe_b64encode bs) = Some bs"
proof (induction bs rule: urlsafe_b64encode.induct)
  case (1 a b c rest)
  then show ?case
    by (simp only: urlsafe_b64encode.simps decode_full_group sextet_bounds option.case
        regroup_first regroup_second regroup_third)
next
  case (2 a b)
  show ?case
    by (simp only: urlsafe_b64encode.simps decode_two_byte_group sextet_bounds
        regroup_first regroup_second_last)
next
  case (3 a)
  show ?case
    by (simp only: urlsafe_b64encode.simps decode_one_byte_group sextet_bounds regroup_first_last)
next
  case 4
  show ?case by simp
qed

lemma urlsafe_b64encode_chars:
  "set (urlsafe_b64encode bs) \<subseteq> set urlsafe_alphabet \<union> {b64_pad}"
  by (induction bs rule: urlsafe_b64encode.induct)
     (simp_all add: b64_char_in_alphabet sextet_bounds)

lemma str_encode_ascii:
  "\<forall>c \<in> set s. c < 128 \<Longrightarrow> str_encode s = Inr (map of_nat s)"
  by (induction s) (simp_all add: utf8_char_def)

section \<open>Properties of \<open>get_encryption_key\<close>\<close>

text \<open>
  C1, as amended: for every secret of at most 32 characters, all of them ASCII,
  \<open>get_encryption_key\<close> returns a string over the URL-safe base64 alphabet and \<open>=\<close>
  that decodes to exactly 32 bytes, namely the secret filled up with spaces on
  the right to 32 characters.
\<close>

theorem get_encryption_key_short_ascii:
  assumes "length secret \<le> 32" and "\<forall>c \<in> set secret. c < 128"
  shows "\<exists>key raw. get_encryption_key secret = Inr key
           \<and> set key \<subseteq> set urlsafe_alphabet \<union> {b64_pad}
           \<and> urlsafe_b64decode key = Some raw
           \<and> length raw = 32
           \<and> raw = map of_nat (secret @ replicate (32 - length secret) 0x20)"
proof -
  let ?padded = "secret @ replicate (32 - length secret) 0x20"
  have "\<forall>c \<in> set ?padded. c < 128" using assms(2) by auto
  then have enc: "str_encode ?padded = Inr (map of_nat ?padded)" by (rule str_encode_ascii)
  have "take 32 (format_left 32 secret) = ?padded"
    using assms(1) by (simp add: format_left_def)
  then have "get_encryption_key secret = Inr (urlsafe_b64encode (map of_nat ?padded))"
    using assms(1) enc by (simp add: get_encryption_key_def)
  moreover have "length (map of_nat ?padded :: bytes) = 32" using assms(1) by simp
  ultimately show ?thesis
    using urlsafe_b64_roundtrip [of "map of_nat ?padded"]
      urlsafe_b64encode_chars [of "map of_nat ?padded"] by blast
qed

theorem get_encryption_key_short_ascii_witness:
  "length (py_str ''short'') \<le> 32 \<and> list_all (\<lambda>c. c < 128) (py_str ''short'')
   \<and> get_encryption_key (py_str ''short'') = Inr (py_bytes ''c2hvcnQgICAgICAgICAgICAgICAgICAgICAgICAgICA='')
   \<and> (\<exists>key raw. get_encryption_key (py_str ''short'') = Inr key
           \<and> set key \<subseteq> set urlsafe_alphabet \<union> {b64_pad}
           \<and> urlsafe_b64decode key = Some raw
           \<and> length raw = 32
           \<and> raw = map of_nat (py_str ''short'' @ replicate (32 - length (py_str ''short'')) 0x20))"
proof -
  have h1: "length (py_str ''short'') \<le> 32" by (simp add: py_str_def)
  have h2: "\<forall>c \<in> set (py_str ''short''). c < 128" by (simp add: py_str_def)
  have pad: "take 32 (format_left 32 (py_str ''short''))
      = py_str ''short                           ''"
    by code_simp
  have enc: "str_encode (py_str ''short                           '')
      = Inr (py_bytes ''short                           '')"
    by (simp add: py_str_def py_bytes_def utf8_char_def)
  have b64: "urlsafe_b64encode (py_bytes ''short                           '')
      = py_bytes ''c2hvcnQgICAgICAgICAgICAgICAgICAgICAgICAgICA=''"
    by (simp add: py_bytes_def b64_char_def urlsafe_alphabet_def b64_pad_def)
  have run: "get_encryption_key (py_str ''short'')
      = Inr (py_bytes ''c2hvcnQgICAgICAgICAgICAgICAgICAgICAgICAgICA='')"
    by (simp add: get_encryption_key_def h1 pad enc b64)
  have h2': "list_all (\<lambda>c. c < 128) (py_str ''short'')"
    using h2 by (simp only: list_all_iff)
  from get_encryption_key_short_ascii [OF h1 h2] h1 h2' run show ?thesis by blast
qed

text \<open>
  C1 as it was stated fails. A secret of 33 characters is neither padded nor cut:
  the key decodes to all of its 33 bytes. A secret of one character outside ASCII
  (\<open>E9\<close>, two bytes in UTF-8) is padded to 32 characters, and the key decodes to
  33 bytes.
\<close>

theorem get_encryption_key_counterexample:
  "get_encryption_key (py_str ''aaaaaaaaaaaaaaaaaaaaaaaaaaaaaaaaa'')
     = Inr (py_bytes ''YWFhYWFhYWFhYWFhYWFhYWFhYWFhYWFhYWFhYWFhYWFh'')
   \<and> urlsafe_b64decode (py_bytes ''YWFhYWFhYWFhYWFhYWFhYWFhYWFhYWFhYWFhYWFhYWFh'')
     = Some (py_bytes ''aaaaaaaaaaaaaaaaaaaaaaaaaaaaaaaaa'')
   \<and> length (py_bytes ''aaaaaaaaaaaaaaaaaaaaaaaaaaaaaaaaa'') = 33
   \<and> get_encryption_key [0xE9]
     = Inr (py_bytes ''w6kgICAgICAgICAgICAgICAgICAgICAgICAgICAgICAg'')
   \<and> urlsafe_b64decode (py_bytes ''w6kgICAgICAgICAgICAgICAgICAgICAgICAgICAgICAg'')
     = Some (0xC3 # 0xA9 # py_bytes ''                               '')
   \<and> length (0xC3 # 0xA9 # py_bytes ''                               '') = 33"
proof -
  have b64_long: "urlsafe_b64encode (py_bytes ''aaaaaaaaaaaaaaaaaaaaaaaaaaaaaaaaa'')
      = py_bytes ''YWFhYWFhYWFhYWFhYWFhYWFhYWFhYWFhYWFhYWFhYWFh''"
    by (simp add: py_bytes_def b64_char_def urlsafe_alphabet_def b64_pad_def)
  have len_long: "\<not> length (py_str ''aaaaaaaaaaaaaaaaaaaaaaaaaaaaaaaaa'') \<le> 32"
    by (simp add: py_str_def)
  have enc_long: "str_encode (py_str ''aaaaaaaaaaaaaaaaaaaaaaaaaaaaaaaaa'')
      = Inr (py_bytes ''aaaaaaaaaaaaaaaaaaaaaaaaaaaaaaaaa'')"
    by (simp add: py_str_def py_bytes_def utf8_char_def)
  have run_long: "get_encryption_key (py_str ''aaaaaaaaaaaaaaaaaaaaaaaaaaaaaaaaa'')
      = Inr (py_bytes ''YWFhYWFhYWFhYWFhYWFhYWFhYWFhYWFhYWFhYWFhYWFh'')"
    by (simp add: get_encryption_key_def len_long enc_long b64_long)
  have b64_wide: "urlsafe_b64encode (0xC3 # 0xA9 # py_bytes ''                               '')
      = py_bytes ''w6kgICAgICAgICAgICAgICAgICAgICAgICAgICAgICAg''"
    by (simp add: py_bytes_def b64_char_def urlsafe_alphabet_def b64_pad_def)
  have pad_wide: "take 32 (format_left 32 [0xE9])
      = 0xE9 # py_str ''                               ''"
    by code_simp
  have enc_wide: "str_encode (0xE9 # py_str ''                               '')
      = Inr (0xC3 # 0xA9 # py_bytes ''                               '')"
    by (simp add: py_str_def py_bytes_def utf8_char_def)
  have run_wide: "get_encryption_key [0xE9]
      = Inr (py_bytes ''w6kgICAgICAgICAgICAgICAgICAgICAgICAgICAgICAg'')"
  proof -
    have "length [0xE9::nat] \<le> 32" by simp
    then show ?thesis
      by (simp only: get_encryption_key_def Let_def if_True pad_wide enc_wide sum.case b64_wide)
  qed
  have dec_long: "urlsafe_b64decode (py_bytes ''YWFhYWFhYWFhYWFhYWFhYWFhYWFhYWFhYWFhYWFhYWFh'')
      = Some (py_bytes ''aaaaaaaaaaaaaaaaaaaaaaaaaaaaaaaaa'')"
    using urlsafe_b64_roundtrip [of "py_bytes ''aaaaaaaaaaaaaaaaaaaaaaaaaaaaaaaaa''"]
    by (simp only: b64_long)
  have dec_wide: "urlsafe_b64decode (py_bytes ''w6kgICAgICAgICAgICAgICAgICAgICAgICAgICAgICAg'')
      = Some (0xC3 # 0xA9 # py_bytes ''                               '')"
    using urlsafe_b64_roundtrip [of "0xC3 # 0xA9 # py_bytes ''                               ''"]
    by (simp only: b64_wide)
  have len: "length (py_bytes ''aaaaaaaaaaaaaaaaaaaaaaaaaaaaaaaaa'') = 33"
    "length (0xC3 # 0xA9 # py_bytes ''                               '') = 33"
    by (simp_all add: py_bytes_def)
  from run_long dec_long len run_wide dec_wide show ?thesis by (intro conjI)
qed

end
